theory Spec2Isabelle
  imports Main
begin

section \<open>The chess game service of backend/server.py\<close>

text \<open>
  A bishop stands on c3 of an 8 by 8 board whose edges wrap around; a rook starts on h1
  and is moved each round by a coin toss (the axis) and two dice (the distance). The
  game ends when the bishop attacks the rook, or after 15 rounds. The theory embeds the
  classes \<open>Piece\<close>, \<open>Bishop\<close>, \<open>Rook\<close>, \<open>Board\<close>, the pydantic models, the class
  \<open>GameService\<close> and the four game routes.

  Python integers are \<open>int\<close>, Python strings are \<open>string\<close>, the dictionary
  \<open>GameService.games\<close> is a map from identifiers to entries. An object mutated in
  place is passed in and returned updated. What Python draws from its environment is a
  parameter: the coin and the dice (\<open>random.choice\<close>, \<open>random.randint\<close>), the
  identifier (\<open>uuid.uuid4\<close>) and the clock (\<open>datetime.utcnow\<close>).
\<close>

subsection \<open>Errors\<close>

text \<open>
  \<open>ValueError\<close> is what \<open>chr\<close> raises outside \<open>range(0x110000)\<close>,
  \<open>OverflowError\<close> what it raises on an argument that is no C int,
  \<open>ZeroDivisionError\<close> what \<open>%\<close> raises on a zero divisor, \<open>HTTPException\<close> what
  the routes raise, with status code and detail. A code point from 256 on is a string in
  Python that the type \<open>string\<close> (8-bit characters) cannot hold: there the model stops
  with \<open>OutsideModel\<close> instead of inventing a value.
\<close>

datatype error =
  ValueError | OverflowError | ZeroDivisionError | HTTPException int string | OutsideModel

definition py_chr :: "int \<Rightarrow> error + string" where
  "py_chr n =
     (if n < - 2147483648 \<or> 2147483647 < n then Inl OverflowError
      else if n < 0 \<or> 1114112 \<le> n then Inl ValueError
      else if n < 256 then Inr [char_of n]
      else Inl OutsideModel)"

definition py_mod :: "int \<Rightarrow> int \<Rightarrow> error + int" where
  "py_mod a b = (if b = 0 then Inl ZeroDivisionError else Inr (a mod b))"

subsection \<open>Pieces\<close>

datatype PieceType = BISHOP | ROOK

datatype PieceColor = WHITE | BLACK

text \<open>
  The fields \<open>file\<close>, \<open>rank\<close>, \<open>x\<close>, \<open>y\<close> of \<open>Position\<close> and \<open>x\<close>, \<open>y\<close> of
  \<open>Piece\<close> carry a prefix here, and \<open>Board.size\<close> and \<open>DiceRoll.total\<close> are
  \<open>board_size\<close> and \<open>dice_total\<close>: the plain names are taken in HOL or would capture
  the variables of every statement.
\<close>

record Position =
  pos_file :: string
  pos_rank :: int
  pos_x :: int
  pos_y :: int

record Piece =
  piece_type :: PieceType
  color :: PieceColor
  piece_x :: int
  piece_y :: int

definition get_position :: "Piece \<Rightarrow> error + Position" where
  "get_position p =
     (case py_chr (of_char CHR ''a'' + piece_x p) of
        Inl e \<Rightarrow> Inl e
      | Inr f \<Rightarrow>
          Inr \<lparr>pos_file = f, pos_rank = piece_y p + 1, pos_x = piece_x p, pos_y = piece_y p\<rparr>)"

definition set_position :: "Piece \<Rightarrow> int \<Rightarrow> int \<Rightarrow> Piece" where
  "set_position p x y = p\<lparr>piece_x := x, piece_y := y\<rparr>"

definition Bishop :: "int \<times> int \<Rightarrow> Piece" where
  "Bishop position =
     \<lparr>piece_type = BISHOP, color = WHITE, piece_x = fst position, piece_y = snd position\<rparr>"

definition Rook :: "int \<times> int \<Rightarrow> Piece" where
  "Rook position =
     \<lparr>piece_type = ROOK, color = BLACK, piece_x = fst position, piece_y = snd position\<rparr>"

definition Bishop_can_capture :: "Piece \<Rightarrow> int \<Rightarrow> int \<Rightarrow> bool" where
  "Bishop_can_capture p target_x target_y =
     (let dx = \<bar>target_x - piece_x p\<bar>;
          dy = \<bar>target_y - piece_y p\<bar>
      in dx = dy \<and> dx > 0)"

definition Rook_can_capture :: "Piece \<Rightarrow> int \<Rightarrow> int \<Rightarrow> bool" where
  "Rook_can_capture p target_x target_y =
     ((piece_x p = target_x \<and> piece_y p \<noteq> target_y) \<or>
      (piece_y p = target_y \<and> piece_x p \<noteq> target_x))"

subsection \<open>The board\<close>

record Board =
  board_size :: int
  bishop :: Piece
  rook :: Piece

definition Board_init :: Board where
  "Board_init = \<lparr>board_size = 8, bishop = Bishop (2, 2), rook = Rook (7, 0)\<rparr>"

definition wrap_coordinates :: "Board \<Rightarrow> int \<Rightarrow> int \<Rightarrow> error + int \<times> int" where
  "wrap_coordinates b x y =
     (case py_mod x (board_size b) of
        Inl e \<Rightarrow> Inl e
      | Inr wx \<Rightarrow>
          (case py_mod y (board_size b) of
             Inl e \<Rightarrow> Inl e
           | Inr wy \<Rightarrow> Inr (wx, wy)))"

text \<open>
  \<open>move_rook\<close> returns the board with the rook moved, and the new coordinates. When the
  wrapping raises, the rook has not been touched yet.
\<close>

definition move_rook :: "Board \<Rightarrow> string \<Rightarrow> int \<Rightarrow> error + Board \<times> (int \<times> int)" where
  "move_rook b direction squares =
     (let (new_x, new_y) =
            (if direction = ''up'' then (piece_x (rook b), piece_y (rook b) + squares)
             else (piece_x (rook b) + squares, piece_y (rook b)))
      in case wrap_coordinates b new_x new_y of
           Inl e \<Rightarrow> Inl e
         | Inr (wx, wy) \<Rightarrow> Inr (b\<lparr>rook := set_position (rook b) wx wy\<rparr>, (wx, wy)))"

definition check_capture :: "Board \<Rightarrow> bool" where
  "check_capture b = Bishop_can_capture (bishop b) (piece_x (rook b)) (piece_y (rook b))"

subsection \<open>The pydantic models\<close>

record CoinToss =
  result :: string
  direction :: string

record DiceRoll =
  die1 :: int
  die2 :: int
  dice_total :: int

record GameRound =
  round_number :: int
  coin_toss :: CoinToss
  dice_roll :: DiceRoll
  rook_position_before :: Position
  rook_position_after :: Position
  captured :: bool

text \<open>\<open>created_at\<close> is a time stamp, a number here.\<close>

record GameState =
  game_id :: string
  rounds :: "GameRound list"
  current_round :: int
  game_over :: bool
  winner :: "string option"
  bishop_position :: Position
  rook_position :: Position
  created_at :: int

text \<open>
  The constructor call \<open>GameState(bishop_position=..., rook_position=...)\<close> with the
  defaults of the other fields; \<open>game_id\<close> and \<open>created_at\<close> come from the default
  factories \<open>uuid.uuid4\<close> and \<open>datetime.utcnow\<close> (or, in \<open>reset_game\<close>, the
  identifier is passed).
\<close>

definition GameState_init :: "string \<Rightarrow> int \<Rightarrow> Position \<Rightarrow> Position \<Rightarrow> GameState" where
  "GameState_init gid now bp rp =
     \<lparr>game_id = gid, rounds = [], current_round = 0, game_over = False, winner = None,
      bishop_position = bp, rook_position = rp, created_at = now\<rparr>"

subsection \<open>The game service\<close>

text \<open>
  An entry of \<open>GameService.games\<close> is the dictionary \<open>{"state": ..., "board": ...}\<close>.
  Every operation takes the dictionary of games and returns it, updated or not, with
  its result, so that what a call leaves untouched is part of what it returns.
\<close>

record game_data =
  state :: GameState
  board :: Board

type_synonym games = "string \<rightharpoonup> game_data"

text \<open>
  One round's randomness: the string \<open>random.choice(["heads", "tails"])\<close> returns and
  the two numbers \<open>random.randint(1, 6)\<close> returns. \<open>valid_draw\<close> is what the library
  promises of them.
\<close>

record draw =
  coin_result :: string
  roll1 :: int
  roll2 :: int

definition valid_draw :: "draw \<Rightarrow> bool" where
  "valid_draw d =
     ((coin_result d = ''heads'' \<or> coin_result d = ''tails'') \<and>
      1 \<le> roll1 d \<and> roll1 d \<le> 6 \<and> 1 \<le> roll2 d \<and> roll2 d \<le> 6)"

definition create_game :: "games \<Rightarrow> string \<Rightarrow> int \<Rightarrow> games \<times> (error + GameState)" where
  "create_game games new_id now =
     (let board = Board_init in
      case get_position (bishop board) of
        Inl e \<Rightarrow> (games, Inl e)
      | Inr bp \<Rightarrow>
          (case get_position (rook board) of
             Inl e \<Rightarrow> (games, Inl e)
           | Inr rp \<Rightarrow>
               (let game_state = GameState_init new_id now bp rp
                in (games(new_id \<mapsto> \<lparr>state = game_state, board = board\<rparr>), Inr game_state))))"

definition get_game :: "games \<Rightarrow> string \<Rightarrow> games \<times> GameState option" where
  "get_game games gid =
     (case games gid of
        Some game_data \<Rightarrow> (games, Some (state game_data))
      | None \<Rightarrow> (games, None))"

text \<open>
  \<open>play_round\<close> changes the state and the board of the entry in place. An exception
  leaves what was changed before it: the counter is already incremented when the first
  \<open>get_position\<close> runs, and the rook has moved when the second one runs.
\<close>

definition play_round :: "games \<Rightarrow> string \<Rightarrow> draw \<Rightarrow> games \<times> (error + GameState option)" where
  "play_round games gid d =
     (case games gid of
        None \<Rightarrow> (games, Inr None)
      | Some game_data \<Rightarrow>
          (let game_state = state game_data; b = board game_data in
           if game_over game_state then (games, Inr (Some game_state))
           else
             let s1 = game_state\<lparr>current_round := current_round game_state + 1\<rparr> in
             case get_position (rook b) of
               Inl e \<Rightarrow> (games(gid \<mapsto> \<lparr>state = s1, board = b\<rparr>), Inl e)
             | Inr position_before \<Rightarrow>
                 (let dir = (if coin_result d = ''heads'' then ''up'' else ''right'');
                      toss = \<lparr>result = coin_result d, direction = dir\<rparr>;
                      tot = roll1 d + roll2 d;
                      dice = \<lparr>die1 = roll1 d, die2 = roll2 d, dice_total = tot\<rparr>
                  in case move_rook b dir tot of
                       Inl e \<Rightarrow> (games(gid \<mapsto> \<lparr>state = s1, board = b\<rparr>), Inl e)
                     | Inr (b1, _) \<Rightarrow>
                         (case get_position (rook b1) of
                            Inl e \<Rightarrow> (games(gid \<mapsto> \<lparr>state = s1, board = b1\<rparr>), Inl e)
                          | Inr position_after \<Rightarrow>
                              (let capt = check_capture b1;
                                   game_round =
                                     \<lparr>round_number = current_round s1, coin_toss = toss,
                                      dice_roll = dice,
                                      rook_position_before = position_before,
                                      rook_position_after = position_after,
                                      captured = capt\<rparr>;
                                   s2 = s1\<lparr>rounds := rounds s1 @ [game_round],
                                           rook_position := position_after\<rparr>;
                                   s3 = (if capt
                                         then s2\<lparr>game_over := True,
                                                 winner := Some ''Bishop (White)''\<rparr>
                                         else if current_round s2 \<ge> 15
                                         then s2\<lparr>game_over := True,
                                                 winner := Some ''Rook (Black)''\<rparr>
                                         else s2)
                               in (games(gid \<mapsto> \<lparr>state = s3, board = b1\<rparr>),
                                   Inr (Some s3)))))))"

subsection \<open>The routes\<close>

definition not_found :: error where
  "not_found = HTTPException 404 ''Game not found''"

definition api_create_game :: "games \<Rightarrow> string \<Rightarrow> int \<Rightarrow> games \<times> (error + GameState)" where
  "api_create_game games new_id now = create_game games new_id now"

definition api_get_game :: "games \<Rightarrow> string \<Rightarrow> games \<times> (error + GameState)" where
  "api_get_game games gid =
     (case get_game games gid of
        (games', None) \<Rightarrow> (games', Inl not_found)
      | (games', Some game_state) \<Rightarrow> (games', Inr game_state))"

definition api_play_round :: "games \<Rightarrow> string \<Rightarrow> draw \<Rightarrow> games \<times> (error + GameState)" where
  "api_play_round games gid d =
     (case play_round games gid d of
        (games', Inl e) \<Rightarrow> (games', Inl e)
      | (games', Inr None) \<Rightarrow> (games', Inl not_found)
      | (games', Inr (Some game_state)) \<Rightarrow> (games', Inr game_state))"

definition reset_game :: "games \<Rightarrow> string \<Rightarrow> int \<Rightarrow> games \<times> (error + GameState)" where
  "reset_game games gid now =
     (if games gid = None then (games, Inl not_found)
      else
        let b = Board_init in
        case get_position (bishop b) of
          Inl e \<Rightarrow> (games, Inl e)
        | Inr bp \<Rightarrow>
            (case get_position (rook b) of
               Inl e \<Rightarrow> (games, Inl e)
             | Inr rp \<Rightarrow>
                 (let game_state = GameState_init gid now bp rp
                  in (games(gid \<mapsto> \<lparr>state = game_state, board = b\<rparr>), Inr game_state))))"

subsection \<open>Sequences of calls\<close>

text \<open>
  \<open>play_rounds\<close> is a client that calls \<open>play_round\<close> on one game once for each draw of
  a list, as the loop of \<open>test_multiple_rounds\<close> does, and returns the games and the
  responses in order. \<open>live_before\<close> says that the game existed and was not over
  before any of these calls.
\<close>

fun play_rounds :: "games \<Rightarrow> string \<Rightarrow> draw list \<Rightarrow> games \<times> (error + GameState option) list" where
  "play_rounds games gid [] = (games, [])"
| "play_rounds games gid (d # ds) =
     (let (games1, r) = play_round games gid d;
          (games2, rs) = play_rounds games1 gid ds
      in (games2, r # rs))"

fun live_before :: "games \<Rightarrow> string \<Rightarrow> draw list \<Rightarrow> bool" where
  "live_before games gid [] = True"
| "live_before games gid (d # ds) =
     (case games gid of
        None \<Rightarrow> False
      | Some game_data \<Rightarrow>
          \<not> game_over (state game_data) \<and> live_before (fst (play_round games gid d)) gid ds)"

subsection \<open>Invariants\<close>

text \<open>
  The predicates of this subsection are not code of the service: they say what holds of
  every entry the service builds, and the proofs below carry them from call to call.
  \<open>board_ok\<close>: the board is 8 wide, the bishop stands on c3 and the rook is on the
  board. \<open>state_ok\<close>: the counter is the number of recorded rounds, at most 15, the
  rounds are numbered from 1, only the last round can record a capture, and the flag
  and the winner are what the recorded rounds and the counter make them.
  \<open>capture_recorded\<close>: the round's flag is the bishop's rule on the square the rook
  reached. \<open>round_ok\<close>: the dice are dice, the total is their sum, 8 is its only
  value that the board size divides, and the rook stood still exactly on a total of 8. \<open>returned_state\<close>: a call returned a state, neither
  an exception nor \<open>None\<close>.
\<close>

definition board_ok :: "Board \<Rightarrow> bool" where
  "board_ok b =
     (board_size b = 8 \<and> bishop b = Bishop (2, 2) \<and>
      0 \<le> piece_x (rook b) \<and> piece_x (rook b) < 8 \<and>
      0 \<le> piece_y (rook b) \<and> piece_y (rook b) < 8)"

definition state_ok :: "GameState \<Rightarrow> bool" where
  "state_ok s =
     (current_round s = int (length (rounds s)) \<and> current_round s \<le> 15 \<and>
      map round_number (rounds s) = [1..current_round s] \<and>
      list_all (\<lambda>r. \<not> captured r) (butlast (rounds s)) \<and>
      game_over s = (list_ex captured (rounds s) \<or> 15 \<le> current_round s) \<and>
      winner s = (if list_ex captured (rounds s) then Some ''Bishop (White)''
                  else if 15 \<le> current_round s then Some ''Rook (Black)'' else None))"

definition capture_recorded :: "GameRound \<Rightarrow> bool" where
  "capture_recorded r =
     (captured r =
        Bishop_can_capture (Bishop (2, 2)) (pos_x (rook_position_after r))
          (pos_y (rook_position_after r)))"

definition entry_ok :: "game_data \<Rightarrow> bool" where
  "entry_ok gd =
     (board_ok (board gd) \<and> state_ok (state gd) \<and>
      get_position (rook (board gd)) = Inr (rook_position (state gd)) \<and>
      list_all capture_recorded (rounds (state gd)))"

definition round_ok :: "GameRound \<Rightarrow> bool" where
  "round_ok r =
     (1 \<le> die1 (dice_roll r) \<and> die1 (dice_roll r) \<le> 6 \<and>
      1 \<le> die2 (dice_roll r) \<and> die2 (dice_roll r) \<le> 6 \<and>
      dice_total (dice_roll r) = die1 (dice_roll r) + die2 (dice_roll r) \<and>
      (dice_total (dice_roll r) mod 8 = 0) = (dice_total (dice_roll r) = 8) \<and>
      (rook_position_after r = rook_position_before r) = (dice_total (dice_roll r) = 8))"

text \<open>
  \<open>round_of before d r\<close>: the round \<open>r\<close> is the record of the draw \<open>d\<close> played with
  the rook on \<open>before\<close>: it holds the toss and the dice of \<open>d\<close>, the position before,
  the position of a rook moved by the total along the axis of the toss, wrapped at 8, and
  as flag the bishop's rule on that square. \<open>rounds_of p ds rs\<close>: the rounds \<open>rs\<close> are
  the records of the first draws of \<open>ds\<close>, one for each in order, the first played from
  \<open>p\<close> and each next one from where the one before it ended.
\<close>

definition round_of :: "Position \<Rightarrow> draw \<Rightarrow> GameRound \<Rightarrow> bool" where
  "round_of before d r =
     (let t = roll1 d + roll2 d;
          up = (coin_result d = ''heads'');
          x' = (if up then pos_x before else (pos_x before + t) mod 8);
          y' = (if up then (pos_y before + t) mod 8 else pos_y before)
      in rook_position_before r = before \<and>
         coin_toss r = \<lparr>result = coin_result d, direction = (if up then ''up'' else ''right'')\<rparr> \<and>
         dice_roll r = \<lparr>die1 = roll1 d, die2 = roll2 d, dice_total = t\<rparr> \<and>
         get_position (Rook (x', y')) = Inr (rook_position_after r) \<and>
         captured r = Bishop_can_capture (Bishop (2, 2)) x' y')"

fun rounds_of :: "Position \<Rightarrow> draw list \<Rightarrow> GameRound list \<Rightarrow> bool" where
  "rounds_of p ds [] = True"
| "rounds_of p [] (r # rs) = False"
| "rounds_of p (d # ds) (r # rs) = (round_of p d r \<and> rounds_of (rook_position_after r) ds rs)"

definition returned_state :: "error + GameState option \<Rightarrow> bool" where
  "returned_state r = (case r of Inr (Some _) \<Rightarrow> True | _ \<Rightarrow> False)"

section \<open>One round, and many\<close>

lemma get_position_ok:
  "0 \<le> piece_x p \<Longrightarrow> piece_x p < 8 \<Longrightarrow>
   get_position p =
     Inr \<lparr>pos_file = [char_of (97 + piece_x p)], pos_rank = piece_y p + 1,
          pos_x = piece_x p, pos_y = piece_y p\<rparr>"
  by (simp add: get_position_def py_chr_def)

lemma wrap_coordinates_8:
  "board_size b = 8 \<Longrightarrow> wrap_coordinates b x y = Inr (x mod 8, y mod 8)"
  by (simp add: wrap_coordinates_def py_mod_def)

lemma move_rook_ok:
  "board_ok b \<Longrightarrow>
   move_rook b dir n =
     Inr (b\<lparr>rook := (rook b)\<lparr>piece_x := (if dir = ''up'' then piece_x (rook b) else (piece_x (rook b) + n) mod 8),
                            piece_y := (if dir = ''up'' then (piece_y (rook b) + n) mod 8 else piece_y (rook b))\<rparr>\<rparr>,
          (if dir = ''up'' then piece_x (rook b) else (piece_x (rook b) + n) mod 8,
           if dir = ''up'' then (piece_y (rook b) + n) mod 8 else piece_y (rook b)))"
  by (simp add: move_rook_def board_ok_def wrap_coordinates_8 set_position_def)

lemma move_rook_board_ok:
  "board_ok b \<Longrightarrow> move_rook b dir n = Inr (b1, xy) \<Longrightarrow> board_ok b1"
  by (auto simp: move_rook_ok) (auto simp: board_ok_def split: if_splits)

lemma play_round_live:
  assumes "games gid = Some gd" and "\<not> game_over (state gd)" and "board_ok (board gd)"
  shows "\<exists>b1 pb pa.
     move_rook (board gd) (if coin_result d = ''heads'' then ''up'' else ''right'')
       (roll1 d + roll2 d) = Inr (b1, (piece_x (rook b1), piece_y (rook b1))) \<and>
     board_ok b1 \<and>
     get_position (rook (board gd)) = Inr pb \<and> get_position (rook b1) = Inr pa \<and>
     play_round games gid d =
       (let r = \<lparr>round_number = current_round (state gd) + 1,
                 coin_toss = \<lparr>result = coin_result d,
                    direction = (if coin_result d = ''heads'' then ''up'' else ''right'')\<rparr>,
                 dice_roll = \<lparr>die1 = roll1 d, die2 = roll2 d, dice_total = roll1 d + roll2 d\<rparr>,
                 rook_position_before = pb, rook_position_after = pa,
                 captured = check_capture b1\<rparr>;
            s2 = (state gd)\<lparr>current_round := current_round (state gd) + 1,
                     rounds := rounds (state gd) @ [r], rook_position := pa\<rparr>;
            s3 = (if check_capture b1
                  then s2\<lparr>game_over := True, winner := Some ''Bishop (White)''\<rparr>
                  else if 14 \<le> current_round (state gd)
                  then s2\<lparr>game_over := True, winner := Some ''Rook (Black)''\<rparr>
                  else s2)
        in (games(gid \<mapsto> \<lparr>state = s3, board = b1\<rparr>), Inr (Some s3)))"
proof -
  let ?dir = "if coin_result d = ''heads'' then ''up'' else ''right''"
  let ?n = "roll1 d + roll2 d"
  obtain b1 xy where mv: "move_rook (board gd) ?dir ?n = Inr (b1, xy)"
    using move_rook_ok [OF assms(3)] by blast
  have ok1: "board_ok b1" using move_rook_board_ok [OF assms(3) mv] .
  have xy: "xy = (piece_x (rook b1), piece_y (rook b1))"
    using mv by (auto simp: move_rook_ok [OF assms(3)] split: if_splits)
  obtain pb where pb: "get_position (rook (board gd)) = Inr pb"
    using assms(3) by (simp add: get_position_ok board_ok_def)
  obtain pa where pa: "get_position (rook b1) = Inr pa"
    using ok1 by (simp add: get_position_ok board_ok_def)
  have "play_round games gid d =
       (let r = \<lparr>round_number = current_round (state gd) + 1,
                 coin_toss = \<lparr>result = coin_result d, direction = ?dir\<rparr>,
                 dice_roll = \<lparr>die1 = roll1 d, die2 = roll2 d, dice_total = roll1 d + roll2 d\<rparr>,
                 rook_position_before = pb, rook_position_after = pa,
                 captured = check_capture b1\<rparr>;
            s2 = (state gd)\<lparr>current_round := current_round (state gd) + 1,
                     rounds := rounds (state gd) @ [r], rook_position := pa\<rparr>;
            s3 = (if check_capture b1
                  then s2\<lparr>game_over := True, winner := Some ''Bishop (White)''\<rparr>
                  else if 14 \<le> current_round (state gd)
                  then s2\<lparr>game_over := True, winner := Some ''Rook (Black)''\<rparr>
                  else s2)
        in (games(gid \<mapsto> \<lparr>state = s3, board = b1\<rparr>), Inr (Some s3)))"
    using assms(1,2) mv pb pa unfolding play_round_def
    by (simp add: Let_def)
  then show ?thesis using mv ok1 pb pa xy by blast
qed


lemma play_round_over:
  "games gid = Some gd \<Longrightarrow> game_over (state gd) \<Longrightarrow>
   play_round games gid d = (games, Inr (Some (state gd)))"
  by (simp add: play_round_def)

lemma upto_snoc: "0 \<le> n \<Longrightarrow> [1..n + 1] = [1..n] @ [n + 1]"
  by (simp add: upto_rec2)

lemma not_ex_all: "\<not> list_ex P xs \<Longrightarrow> list_all (\<lambda>r. \<not> P r) xs"
  by (induction xs) auto

lemma state_ok_step:
  assumes "state_ok s" and "\<not> game_over s" and "round_number r = current_round s + 1"
    and "s2 = s\<lparr>current_round := current_round s + 1, rounds := rounds s @ [r], rook_position := pa\<rparr>"
    and "s3 = (if captured r
                  then s2\<lparr>game_over := True, winner := Some ''Bishop (White)''\<rparr>
                  else if 14 \<le> current_round s
                  then s2\<lparr>game_over := True, winner := Some ''Rook (Black)''\<rparr>
                  else s2)"
  shows "state_ok s3"
proof -
  have a: "current_round s = int (length (rounds s))" "current_round s < 15"
    "\<not> list_ex captured (rounds s)" "map round_number (rounds s) = [1..current_round s]"
    "winner s = None"
    using assms(1,2) by (auto simp: state_ok_def split: if_splits)
  have b: "list_all (\<lambda>r. \<not> captured r) (rounds s)" using a(3) by (rule not_ex_all)
  have c: "0 \<le> current_round s" using a(1) by simp
  show ?thesis
    unfolding state_ok_def using a b assms(2,3) upto_snoc [OF c]
    by (auto simp: assms(4,5))
qed


lemma get_position_fields:
  "get_position p = Inr q \<Longrightarrow> pos_x q = piece_x p \<and> pos_y q = piece_y p"
  by (auto simp: get_position_def split: sum.splits)

lemma get_position_cong:
  "get_position p = Inr q \<Longrightarrow> get_position p' = Inr q' \<Longrightarrow>
   (q' = q) = (piece_x p' = piece_x p \<and> piece_y p' = piece_y p)"
  by (auto simp: get_position_def split: sum.splits)

lemma moved_same_iff:
  fixes x :: int
  assumes "0 \<le> x" "x < 8" "2 \<le> t" "t \<le> 12"
  shows "((x + t) mod 8 = x) = (t = 8)"
  using assms by presburger

lemma step_inv:
  assumes g: "games gid = Some gd" and ok: "entry_ok gd"
  shows "\<exists>gd'. play_round games gid d = (games(gid \<mapsto> gd'), Inr (Some (state gd'))) \<and>
     entry_ok gd' \<and>
     (if game_over (state gd) then gd' = gd
      else current_round (state gd') = current_round (state gd) + 1) \<and>
     game_id (state gd') = game_id (state gd) \<and>
     (valid_draw d \<and> list_all round_ok (rounds (state gd))
        \<longrightarrow> list_all round_ok (rounds (state gd')))"
proof (cases "game_over (state gd)")
  case True
  have "games(gid \<mapsto> gd) = games" using g by (rule map_upd_triv)
  moreover have "play_round games gid d = (games, Inr (Some (state gd)))"
    using g True by (rule play_round_over)
  ultimately show ?thesis using True ok by auto
next
  case False
  have bok: "board_ok (board gd)" and sok: "state_ok (state gd)"
    and sync: "get_position (rook (board gd)) = Inr (rook_position (state gd))"
    and rec: "list_all capture_recorded (rounds (state gd))"
    using ok by (auto simp: entry_ok_def)
  let ?dir = "if coin_result d = ''heads'' then ''up'' else ''right''"
  let ?t = "roll1 d + roll2 d"
  obtain b1 pb pa where
    mv: "move_rook (board gd) ?dir ?t = Inr (b1, (piece_x (rook b1), piece_y (rook b1)))"
    and ok1: "board_ok b1"
    and pb: "get_position (rook (board gd)) = Inr pb"
    and pa: "get_position (rook b1) = Inr pa"
    and pr: "play_round games gid d =
       (let r = \<lparr>round_number = current_round (state gd) + 1,
                 coin_toss = \<lparr>result = coin_result d, direction = ?dir\<rparr>,
                 dice_roll = \<lparr>die1 = roll1 d, die2 = roll2 d, dice_total = roll1 d + roll2 d\<rparr>,
                 rook_position_before = pb, rook_position_after = pa,
                 captured = check_capture b1\<rparr>;
            s2 = (state gd)\<lparr>current_round := current_round (state gd) + 1,
                     rounds := rounds (state gd) @ [r], rook_position := pa\<rparr>;
            s3 = (if check_capture b1
                  then s2\<lparr>game_over := True, winner := Some ''Bishop (White)''\<rparr>
                  else if 14 \<le> current_round (state gd)
                  then s2\<lparr>game_over := True, winner := Some ''Rook (Black)''\<rparr>
                  else s2)
        in (games(gid \<mapsto> \<lparr>state = s3, board = b1\<rparr>), Inr (Some s3)))"
    using play_round_live [where games = games and gid = gid and gd = gd and d = d] g False bok by blast
  define r where "r = \<lparr>round_number = current_round (state gd) + 1,
                 coin_toss = \<lparr>result = coin_result d, direction = ?dir\<rparr>,
                 dice_roll = \<lparr>die1 = roll1 d, die2 = roll2 d, dice_total = roll1 d + roll2 d\<rparr>,
                 rook_position_before = pb, rook_position_after = pa,
                 captured = check_capture b1\<rparr>"
  define s2 where "s2 = (state gd)\<lparr>current_round := current_round (state gd) + 1,
                     rounds := rounds (state gd) @ [r], rook_position := pa\<rparr>"
  define s3 where "s3 = (if captured r
                  then s2\<lparr>game_over := True, winner := Some ''Bishop (White)''\<rparr>
                  else if 14 \<le> current_round (state gd)
                  then s2\<lparr>game_over := True, winner := Some ''Rook (Black)''\<rparr>
                  else s2)"
  have capr: "captured r = check_capture b1" by (simp add: r_def)
  have pr': "play_round games gid d = (games(gid \<mapsto> \<lparr>state = s3, board = b1\<rparr>), Inr (Some s3))"
    using pr by (simp add: Let_def r_def s2_def s3_def)
  have sok3: "state_ok s3"
    by (rule state_ok_step [OF sok False _ s2_def s3_def]) (simp add: r_def)
  have rounds3: "rounds s3 = rounds (state gd) @ [r]" and pos3: "rook_position s3 = pa"
    and cr3: "current_round s3 = current_round (state gd) + 1"
    and id3: "game_id s3 = game_id (state gd)"
    by (auto simp: s3_def s2_def)
  have bish: "bishop b1 = Bishop (2, 2)" using ok1 by (simp add: board_ok_def)
  have recr: "capture_recorded r"
    using get_position_fields [OF pa]
    by (simp add: capture_recorded_def r_def check_capture_def bish)
  have eok: "entry_ok \<lparr>state = s3, board = b1\<rparr>"
    using ok1 sok3 pa rec recr by (simp add: entry_ok_def rounds3 pos3)
  have rok: "round_ok r" if v: "valid_draw d"
  proof -
    have rng: "0 \<le> piece_x (rook (board gd))" "piece_x (rook (board gd)) < 8"
      "0 \<le> piece_y (rook (board gd))" "piece_y (rook (board gd)) < 8"
      using bok by (auto simp: board_ok_def)
    have t: "2 \<le> ?t" "?t \<le> 12" using v by (auto simp: valid_draw_def)
    have xy: "piece_x (rook b1) = (if ?dir = ''up'' then piece_x (rook (board gd)) else (piece_x (rook (board gd)) + ?t) mod 8)"
      "piece_y (rook b1) = (if ?dir = ''up'' then (piece_y (rook (board gd)) + ?t) mod 8 else piece_y (rook (board gd)))"
      using mv unfolding move_rook_ok [OF bok] by auto
    have "(pa = pb) = (?t = 8)"
      unfolding get_position_cong [OF pb pa] xy
      using moved_same_iff [OF rng(1,2) t] moved_same_iff [OF rng(3,4) t]
      by (auto split: if_splits)
    moreover have "(?t mod 8 = 0) = (?t = 8)" using t by presburger
    ultimately show ?thesis using v by (simp add: round_ok_def r_def valid_draw_def)
  qed
  show ?thesis
    using pr' eok cr3 id3 False rok by (intro exI [of _ "\<lparr>state = s3, board = b1\<rparr>"]) (simp add: rounds3)
qed

lemma run_inv:
  assumes "games gid = Some gd" and "entry_ok gd"
  shows "\<exists>gd'. fst (play_rounds games gid ds) gid = Some gd' \<and> entry_ok gd' \<and>
     length (snd (play_rounds games gid ds)) = length ds \<and>
     list_all returned_state (snd (play_rounds games gid ds)) \<and>
     (game_over (state gd') \<or>
        current_round (state gd') = current_round (state gd) + int (length ds)) \<and>
     (live_before games gid ds
        \<longrightarrow> current_round (state gd') = current_round (state gd) + int (length ds)) \<and>
     game_id (state gd') = game_id (state gd) \<and>
     (game_over (state gd) \<longrightarrow> gd' = gd) \<and>
     (list_all valid_draw ds \<and> list_all round_ok (rounds (state gd))
        \<longrightarrow> list_all round_ok (rounds (state gd')))"
  using assms
proof (induction ds arbitrary: games gd)
  case Nil
  then show ?case by simp
next
  case (Cons d ds)
  obtain gd1 where
    pr: "play_round games gid d = (games(gid \<mapsto> gd1), Inr (Some (state gd1)))"
    and ok1: "entry_ok gd1"
    and cr1: "if game_over (state gd) then gd1 = gd
              else current_round (state gd1) = current_round (state gd) + 1"
    and id1: "game_id (state gd1) = game_id (state gd)"
    and v1: "valid_draw d \<and> list_all round_ok (rounds (state gd))
        \<longrightarrow> list_all round_ok (rounds (state gd1))"
    using step_inv [where games = games and gid = gid and gd = gd and d = d] Cons.prems
    by blast
  let ?g1 = "games(gid \<mapsto> gd1)"
  have g1: "?g1 gid = Some gd1" by simp
  obtain gd' where
    f: "fst (play_rounds ?g1 gid ds) gid = Some gd'" and ok': "entry_ok gd'"
    and len: "length (snd (play_rounds ?g1 gid ds)) = length ds"
    and ret: "list_all returned_state (snd (play_rounds ?g1 gid ds))"
    and cr: "game_over (state gd') \<or>
        current_round (state gd') = current_round (state gd1) + int (length ds)"
    and lv: "live_before ?g1 gid ds
        \<longrightarrow> current_round (state gd') = current_round (state gd1) + int (length ds)"
    and id': "game_id (state gd') = game_id (state gd1)"
    and over: "game_over (state gd1) \<longrightarrow> gd' = gd1"
    and v': "list_all valid_draw ds \<and> list_all round_ok (rounds (state gd1))
        \<longrightarrow> list_all round_ok (rounds (state gd'))"
    using Cons.IH [where games = ?g1 and gd = gd1] g1 ok1 by blast
  have unf: "play_rounds games gid (d # ds) =
      (fst (play_rounds ?g1 gid ds), Inr (Some (state gd1)) # snd (play_rounds ?g1 gid ds))"
    by (simp add: pr split: prod.splits)
  have lvu: "live_before games gid (d # ds) =
      (\<not> game_over (state gd) \<and> live_before ?g1 gid ds)"
    using Cons.prems(1) by (simp add: pr)
  have c1: "length (snd (play_rounds games gid (d # ds))) = length (d # ds)"
    unfolding unf using len by simp
  have c2: "list_all returned_state (snd (play_rounds games gid (d # ds)))"
    unfolding unf using ret by (simp add: returned_state_def)
  have c3: "game_over (state gd') \<or>
        current_round (state gd') = current_round (state gd) + int (length (d # ds))"
    using cr cr1 over by (cases "game_over (state gd)") auto
  have c4: "live_before games gid (d # ds)
        \<longrightarrow> current_round (state gd') = current_round (state gd) + int (length (d # ds))"
    unfolding lvu using lv cr1 by auto
  have c5: "game_id (state gd') = game_id (state gd)" using id' id1 by simp
  have c6: "game_over (state gd) \<longrightarrow> gd' = gd" using over cr1 by auto
  have c7: "list_all valid_draw (d # ds) \<and> list_all round_ok (rounds (state gd))
        \<longrightarrow> list_all round_ok (rounds (state gd'))"
    using v1 v' by simp
  have c0: "fst (play_rounds games gid (d # ds)) gid = Some gd'"
    unfolding unf using f by simp
  show ?case
    using c0 ok' c1 c2 c3 c4 c5 c6 c7 by blast
qed


lemma get_position_coords:
  "piece_x p = piece_x q \<Longrightarrow> piece_y p = piece_y q \<Longrightarrow> get_position p = get_position q"
  by (simp add: get_position_def split: sum.splits)

lemma step_round:
  assumes g: "games gid = Some gd" and ok: "entry_ok gd" and live: "\<not> game_over (state gd)"
  shows "\<exists>gd' r. play_round games gid d = (games(gid \<mapsto> gd'), Inr (Some (state gd'))) \<and>
     rounds (state gd') = rounds (state gd) @ [r] \<and>
     round_of (rook_position (state gd)) d r \<and>
     rook_position (state gd') = rook_position_after r"
proof -
  have bok: "board_ok (board gd)"
    and sync: "get_position (rook (board gd)) = Inr (rook_position (state gd))"
    using ok by (auto simp: entry_ok_def)
  let ?up = "coin_result d = ''heads''"
  let ?dir = "if ?up then ''up'' else ''right''"
  let ?t = "roll1 d + roll2 d"
  let ?x = "if ?up then piece_x (rook (board gd)) else (piece_x (rook (board gd)) + ?t) mod 8"
  let ?y = "if ?up then (piece_y (rook (board gd)) + ?t) mod 8 else piece_y (rook (board gd))"
  obtain b1 pb pa where
    mv: "move_rook (board gd) ?dir ?t = Inr (b1, (piece_x (rook b1), piece_y (rook b1)))"
    and ok1: "board_ok b1"
    and pb: "get_position (rook (board gd)) = Inr pb"
    and pa: "get_position (rook b1) = Inr pa"
    and pr: "play_round games gid d =
       (let r = \<lparr>round_number = current_round (state gd) + 1,
                 coin_toss = \<lparr>result = coin_result d, direction = ?dir\<rparr>,
                 dice_roll = \<lparr>die1 = roll1 d, die2 = roll2 d, dice_total = roll1 d + roll2 d\<rparr>,
                 rook_position_before = pb, rook_position_after = pa,
                 captured = check_capture b1\<rparr>;
            s2 = (state gd)\<lparr>current_round := current_round (state gd) + 1,
                     rounds := rounds (state gd) @ [r], rook_position := pa\<rparr>;
            s3 = (if check_capture b1
                  then s2\<lparr>game_over := True, winner := Some ''Bishop (White)''\<rparr>
                  else if 14 \<le> current_round (state gd)
                  then s2\<lparr>game_over := True, winner := Some ''Rook (Black)''\<rparr>
                  else s2)
        in (games(gid \<mapsto> \<lparr>state = s3, board = b1\<rparr>), Inr (Some s3)))"
    using play_round_live [where games = games and gid = gid and gd = gd and d = d] g live bok
    by blast
  define r where "r = \<lparr>round_number = current_round (state gd) + 1,
                 coin_toss = \<lparr>result = coin_result d, direction = ?dir\<rparr>,
                 dice_roll = \<lparr>die1 = roll1 d, die2 = roll2 d, dice_total = roll1 d + roll2 d\<rparr>,
                 rook_position_before = pb, rook_position_after = pa,
                 captured = check_capture b1\<rparr>"
  define s2 where "s2 = (state gd)\<lparr>current_round := current_round (state gd) + 1,
                     rounds := rounds (state gd) @ [r], rook_position := pa\<rparr>"
  define s3 where "s3 = (if check_capture b1
                  then s2\<lparr>game_over := True, winner := Some ''Bishop (White)''\<rparr>
                  else if 14 \<le> current_round (state gd)
                  then s2\<lparr>game_over := True, winner := Some ''Rook (Black)''\<rparr>
                  else s2)"
  have pr': "play_round games gid d = (games(gid \<mapsto> \<lparr>state = s3, board = b1\<rparr>), Inr (Some s3))"
    using pr by (simp add: Let_def r_def s2_def s3_def)
  have rounds3: "rounds s3 = rounds (state gd) @ [r]" and pos3: "rook_position s3 = pa"
    by (auto simp: s3_def s2_def)
  have pbs: "pb = rook_position (state gd)" using pb sync by simp
  have bx: "pos_x pb = piece_x (rook (board gd))" and by': "pos_y pb = piece_y (rook (board gd))"
    using get_position_fields [OF pb] by simp_all
  have xy: "piece_x (rook b1) = ?x" "piece_y (rook b1) = ?y"
    using mv unfolding move_rook_ok [OF bok] by (auto split: if_splits)
  have pa': "get_position (Rook (?x, ?y)) = Inr pa"
  proof -
    have "get_position (Rook (?x, ?y)) = get_position (rook b1)"
      by (rule get_position_coords) (simp_all add: Rook_def xy)
    then show ?thesis using pa by simp
  qed
  have bish: "bishop b1 = Bishop (2, 2)" using ok1 by (simp add: board_ok_def)
  have capt: "check_capture b1 = Bishop_can_capture (Bishop (2, 2)) ?x ?y"
    by (simp add: check_capture_def bish xy)
  have ro: "round_of pb d r"
    unfolding round_of_def Let_def bx by'
    using pa' capt by (simp add: r_def)
  have ra: "rook_position_after r = pa" by (simp add: r_def)
  show ?thesis
    using pr' rounds3 ro pos3 ra unfolding pbs
    by (intro exI [of _ "\<lparr>state = s3, board = b1\<rparr>"] exI [of _ r]) simp
qed

lemma rounds_of_length: "rounds_of p ds rs \<Longrightarrow> length rs \<le> length ds"
  by (induction p ds rs rule: rounds_of.induct) auto

lemma run_trace:
  assumes "games gid = Some gd" and "entry_ok gd"
  shows "\<exists>gd' new. fst (play_rounds games gid ds) gid = Some gd' \<and>
     rounds (state gd') = rounds (state gd) @ new \<and>
     rounds_of (rook_position (state gd)) ds new \<and>
     rook_position (state gd') =
       (if new = [] then rook_position (state gd) else rook_position_after (last new))"
  using assms
proof (induction ds arbitrary: games gd)
  case Nil
  then show ?case by simp
next
  case (Cons d ds)
  obtain gd1 where
    pr: "play_round games gid d = (games(gid \<mapsto> gd1), Inr (Some (state gd1)))"
    and ok1: "entry_ok gd1"
    and cr1: "if game_over (state gd) then gd1 = gd
              else current_round (state gd1) = current_round (state gd) + 1"
    using step_inv [where games = games and gid = gid and gd = gd and d = d] Cons.prems
    by blast
  let ?g1 = "games(gid \<mapsto> gd1)"
  have g1: "?g1 gid = Some gd1" by simp
  obtain gd' new where
    f: "fst (play_rounds ?g1 gid ds) gid = Some gd'"
    and rs: "rounds (state gd') = rounds (state gd1) @ new"
    and tr: "rounds_of (rook_position (state gd1)) ds new"
    and rp: "rook_position (state gd') =
       (if new = [] then rook_position (state gd1) else rook_position_after (last new))"
    using Cons.IH [where games = ?g1 and gd = gd1] g1 ok1 by blast
  have unf: "fst (play_rounds games gid (d # ds)) = fst (play_rounds ?g1 gid ds)"
    by (simp add: pr split: prod.splits)
  have c0: "fst (play_rounds games gid (d # ds)) gid = Some gd'"
    unfolding unf using f by simp
  show ?case
  proof (cases "game_over (state gd)")
    case True
    have e: "gd1 = gd" using cr1 True by simp
    obtain gd2 where f2: "fst (play_rounds ?g1 gid ds) gid = Some gd2"
      and over: "game_over (state gd1) \<longrightarrow> gd2 = gd1"
      using run_inv [where games = ?g1 and gid = gid and gd = gd1 and ds = ds] g1 ok1
      by blast
    have same: "gd' = gd" using f f2 over True e by simp
    have "rounds (state gd') = rounds (state gd) @ [] \<and>
       rounds_of (rook_position (state gd)) (d # ds) [] \<and>
       rook_position (state gd') =
         (if [] = ([] :: GameRound list) then rook_position (state gd)
          else rook_position_after (last []))"
      by (simp add: same)
    then show ?thesis using c0 by blast
  next
    case False
    obtain gd1' r where
      pr2: "play_round games gid d = (games(gid \<mapsto> gd1'), Inr (Some (state gd1')))"
      and r1: "rounds (state gd1') = rounds (state gd) @ [r]"
      and ro: "round_of (rook_position (state gd)) d r"
      and p1: "rook_position (state gd1') = rook_position_after r"
      using step_round [where games = games and gid = gid and gd = gd and d = d]
        Cons.prems False
      by blast
    have "state gd1' = state gd1" using pr pr2 by simp
    then have r1': "rounds (state gd1) = rounds (state gd) @ [r]"
      and p1': "rook_position (state gd1) = rook_position_after r"
      using r1 p1 by simp_all
    have a: "rounds (state gd') = rounds (state gd) @ (r # new)"
      using rs r1' by simp
    have b: "rounds_of (rook_position (state gd)) (d # ds) (r # new)"
      using ro tr p1' by simp
    have c: "rook_position (state gd') =
       (if r # new = [] then rook_position (state gd) else rook_position_after (last (r # new)))"
      using rp p1' by simp
    show ?thesis using c0 a b c by blast
  qed
qed

lemma create_game_eq:
  "create_game games new_id now =
     (games(new_id \<mapsto>
        \<lparr>state = GameState_init new_id now
                   \<lparr>pos_file = ''c'', pos_rank = 3, pos_x = 2, pos_y = 2\<rparr>
                   \<lparr>pos_file = ''h'', pos_rank = 1, pos_x = 7, pos_y = 0\<rparr>,
         board = Board_init\<rparr>),
      Inr (GameState_init new_id now
             \<lparr>pos_file = ''c'', pos_rank = 3, pos_x = 2, pos_y = 2\<rparr>
             \<lparr>pos_file = ''h'', pos_rank = 1, pos_x = 7, pos_y = 0\<rparr>))"
  by (simp add: create_game_def Board_init_def Bishop_def Rook_def get_position_def py_chr_def
      char_of_def Let_def)

lemma fresh_entry_ok:
  "entry_ok \<lparr>state = GameState_init gid now
                   \<lparr>pos_file = ''c'', pos_rank = 3, pos_x = 2, pos_y = 2\<rparr>
                   \<lparr>pos_file = ''h'', pos_rank = 1, pos_x = 7, pos_y = 0\<rparr>,
         board = Board_init\<rparr>"
  by (simp add: entry_ok_def board_ok_def state_ok_def GameState_init_def Board_init_def
      Bishop_def Rook_def get_position_def py_chr_def char_of_def)


lemma last_captured:
  "list_all (\<lambda>r. \<not> P r) (butlast xs) \<Longrightarrow> list_ex P xs = (xs \<noteq> [] \<and> P (last xs))"
  by (cases xs rule: rev_cases) (auto simp: list_all_iff list_ex_iff)

lemma created_run:
  "\<exists>gd0. fst (create_game games new_id now) = games(new_id \<mapsto> gd0) \<and> entry_ok gd0 \<and>
     current_round (state gd0) = 0 \<and> rounds (state gd0) = [] \<and> game_id (state gd0) = new_id"
proof -
  let ?gd0 = "\<lparr>state = GameState_init new_id now
                   \<lparr>pos_file = ''c'', pos_rank = 3, pos_x = 2, pos_y = 2\<rparr>
                   \<lparr>pos_file = ''h'', pos_rank = 1, pos_x = 7, pos_y = 0\<rparr>,
         board = Board_init\<rparr>"
  have "fst (create_game games new_id now) = games(new_id \<mapsto> ?gd0)"
    by (simp add: create_game_eq)
  moreover have "entry_ok ?gd0" by (rule fresh_entry_ok)
  moreover have "current_round (state ?gd0) = 0 \<and> rounds (state ?gd0) = [] \<and>
      game_id (state ?gd0) = new_id"
    by (simp add: GameState_init_def)
  ultimately show ?thesis by blast
qed

lemma play_round_returns:
  assumes "games gid = Some gd" and "board_ok (board gd)"
  shows "\<exists>games' st. play_round games gid d = (games', Inr (Some st))"
proof (cases "game_over (state gd)")
  case True
  have "play_round games gid d = (games, Inr (Some (state gd)))"
    using assms(1) True by (rule play_round_over)
  then show ?thesis by blast
next
  case False
  show ?thesis
    using play_round_live [where games = games and gid = gid and gd = gd and d = d]
      assms False
    by (auto simp: Let_def)
qed

lemma reset_game_stored:
  assumes "games gid = Some gd"
  shows "reset_game games gid now =
     (games(gid \<mapsto>
        \<lparr>state = GameState_init gid now
                   \<lparr>pos_file = ''c'', pos_rank = 3, pos_x = 2, pos_y = 2\<rparr>
                   \<lparr>pos_file = ''h'', pos_rank = 1, pos_x = 7, pos_y = 0\<rparr>,
         board = Board_init\<rparr>),
      Inr (GameState_init gid now
             \<lparr>pos_file = ''c'', pos_rank = 3, pos_x = 2, pos_y = 2\<rparr>
             \<lparr>pos_file = ''h'', pos_rank = 1, pos_x = 7, pos_y = 0\<rparr>))"
  using assms
  by (simp add: reset_game_def Board_init_def Bishop_def Rook_def get_position_def py_chr_def
      char_of_def Let_def)

section \<open>The claims\<close>

text \<open>
  C1. A game made by \<open>create_game\<close> is over after at most 15 calls of \<open>play_round\<close>,
  whatever the draws, and every call returns a state. After any number of calls the
  winner is the bishop exactly when the last recorded round recorded a capture, which
  is the bishop's rule on the square the rook reached in that round; the winner is the
  rook exactly when the counter stands at 15 and no round recorded a capture; and the
  game is over exactly when there is a winner. The two winners exclude each other, being
  two values of one field.

  The rounds are played, not only counted: the counter is the number of recorded rounds,
  at most 15 and at most the number of calls, and it is the number of calls as long as
  the game is not over; the recorded rounds are the records of the first draws in
  order, the rook starting on h1 and each round starting where the one before it ended;
  only the last round can record a capture; and the game is over exactly when the last
  round recorded a capture or the counter stands at 15.
\<close>

theorem created_game_ends:
  "\<exists>gd. fst (play_rounds (fst (create_game games new_id now)) new_id ds) new_id = Some gd \<and>
     list_all returned_state (snd (play_rounds (fst (create_game games new_id now)) new_id ds)) \<and>
     (15 \<le> length ds \<longrightarrow> game_over (state gd)) \<and>
     (winner (state gd) = Some ''Bishop (White)'')
       = (rounds (state gd) \<noteq> [] \<and> captured (last (rounds (state gd)))) \<and>
     (winner (state gd) = Some ''Rook (Black)'')
       = (current_round (state gd) = 15 \<and> list_all (\<lambda>r. \<not> captured r) (rounds (state gd))) \<and>
     game_over (state gd) = (winner (state gd) \<noteq> None) \<and>
     list_all capture_recorded (rounds (state gd)) \<and>
     game_id (state gd) = new_id \<and>
     current_round (state gd) = int (length (rounds (state gd))) \<and>
     current_round (state gd) \<le> 15 \<and>
     current_round (state gd) \<le> int (length ds) \<and>
     (game_over (state gd) \<or> current_round (state gd) = int (length ds)) \<and>
     game_over (state gd)
       = ((rounds (state gd) \<noteq> [] \<and> captured (last (rounds (state gd)))) \<or>
          current_round (state gd) = 15) \<and>
     list_all (\<lambda>r. \<not> captured r) (butlast (rounds (state gd))) \<and>
     map round_number (rounds (state gd)) = [1..current_round (state gd)] \<and>
     rounds_of \<lparr>pos_file = ''h'', pos_rank = 1, pos_x = 7, pos_y = 0\<rparr> ds (rounds (state gd)) \<and>
     rook_position (state gd) =
       (if rounds (state gd) = [] then \<lparr>pos_file = ''h'', pos_rank = 1, pos_x = 7, pos_y = 0\<rparr>
        else rook_position_after (last (rounds (state gd))))"
proof -
  let ?h1 = "\<lparr>pos_file = ''h'', pos_rank = 1, pos_x = 7, pos_y = 0\<rparr>"
  define gd0 where "gd0 = \<lparr>state = GameState_init new_id now
                   \<lparr>pos_file = ''c'', pos_rank = 3, pos_x = 2, pos_y = 2\<rparr> ?h1,
         board = Board_init\<rparr>"
  have c: "fst (create_game games new_id now) = games(new_id \<mapsto> gd0)"
    by (simp add: create_game_eq gd0_def)
  have ok0: "entry_ok gd0" unfolding gd0_def by (rule fresh_entry_ok)
  have cr0: "current_round (state gd0) = 0" and r0: "rounds (state gd0) = []"
    and p0: "rook_position (state gd0) = ?h1" and id0: "game_id (state gd0) = new_id"
    by (simp_all add: gd0_def GameState_init_def)
  let ?g1 = "games(new_id \<mapsto> gd0)"
  have g1: "?g1 new_id = Some gd0" by simp
  obtain gd where f: "fst (play_rounds ?g1 new_id ds) new_id = Some gd"
    and ok: "entry_ok gd"
    and ret: "list_all returned_state (snd (play_rounds ?g1 new_id ds))"
    and cr: "game_over (state gd) \<or>
        current_round (state gd) = current_round (state gd0) + int (length ds)"
    and idp: "game_id (state gd) = game_id (state gd0)"
    using run_inv [where games = ?g1 and gid = new_id and gd = gd0 and ds = ds] g1 ok0
    by blast
  obtain gd2 new where f2: "fst (play_rounds ?g1 new_id ds) new_id = Some gd2"
    and rs: "rounds (state gd2) = rounds (state gd0) @ new"
    and tr: "rounds_of (rook_position (state gd0)) ds new"
    and rp: "rook_position (state gd2) =
       (if new = [] then rook_position (state gd0) else rook_position_after (last new))"
    using run_trace [where games = ?g1 and gid = new_id and gd = gd0 and ds = ds] g1 ok0
    by blast
  have e2: "gd2 = gd" using f f2 by simp
  have rs': "rounds (state gd) = new" using rs r0 e2 by simp
  have sok: "state_ok (state gd)" and rec: "list_all capture_recorded (rounds (state gd))"
    using ok by (auto simp: entry_ok_def)
  have len: "current_round (state gd) = int (length (rounds (state gd)))"
    and le: "current_round (state gd) \<le> 15"
    and num: "map round_number (rounds (state gd)) = [1..current_round (state gd)]"
    and go: "game_over (state gd) =
        (list_ex captured (rounds (state gd)) \<or> 15 \<le> current_round (state gd))"
    and w: "winner (state gd) =
        (if list_ex captured (rounds (state gd)) then Some ''Bishop (White)''
         else if 15 \<le> current_round (state gd) then Some ''Rook (Black)'' else None)"
    and bl: "list_all (\<lambda>r. \<not> captured r) (butlast (rounds (state gd)))"
    using sok by (auto simp: state_ok_def)
  have ex: "list_ex captured (rounds (state gd))
      = (rounds (state gd) \<noteq> [] \<and> captured (last (rounds (state gd))))"
    using bl by (rule last_captured)
  have nex: "(\<not> list_ex captured (rounds (state gd)))
      = list_all (\<lambda>r. \<not> captured r) (rounds (state gd))"
    by (simp add: list_all_iff list_ex_iff)
  have a: "15 \<le> length ds \<longrightarrow> game_over (state gd)"
    using cr cr0 go by auto
  have b: "(winner (state gd) = Some ''Bishop (White)'')
       = (rounds (state gd) \<noteq> [] \<and> captured (last (rounds (state gd))))"
    unfolding ex [symmetric] using w by simp
  have c': "(winner (state gd) = Some ''Rook (Black)'')
       = (current_round (state gd) = 15 \<and> list_all (\<lambda>r. \<not> captured r) (rounds (state gd)))"
    unfolding nex [symmetric] using w le by auto
  have d: "game_over (state gd) = (winner (state gd) \<noteq> None)"
    using w go by simp
  have i: "game_id (state gd) = new_id" using idp id0 by simp
  have tr': "rounds_of ?h1 ds (rounds (state gd))" using tr p0 rs' by simp
  have k: "current_round (state gd) \<le> int (length ds)"
    using rounds_of_length [OF tr'] len by simp
  have l: "game_over (state gd) \<or> current_round (state gd) = int (length ds)"
    using cr cr0 by simp
  have m: "game_over (state gd)
       = ((rounds (state gd) \<noteq> [] \<and> captured (last (rounds (state gd)))) \<or>
          current_round (state gd) = 15)"
    unfolding ex [symmetric] using go le by auto
  have n: "rook_position (state gd) =
       (if rounds (state gd) = [] then ?h1 else rook_position_after (last (rounds (state gd))))"
    using rp p0 rs' e2 by simp
  have all: "fst (play_rounds ?g1 new_id ds) new_id = Some gd \<and>
     list_all returned_state (snd (play_rounds ?g1 new_id ds)) \<and>
     (15 \<le> length ds \<longrightarrow> game_over (state gd)) \<and>
     (winner (state gd) = Some ''Bishop (White)'')
       = (rounds (state gd) \<noteq> [] \<and> captured (last (rounds (state gd)))) \<and>
     (winner (state gd) = Some ''Rook (Black)'')
       = (current_round (state gd) = 15 \<and> list_all (\<lambda>r. \<not> captured r) (rounds (state gd))) \<and>
     game_over (state gd) = (winner (state gd) \<noteq> None) \<and>
     list_all capture_recorded (rounds (state gd)) \<and>
     game_id (state gd) = new_id \<and>
     current_round (state gd) = int (length (rounds (state gd))) \<and>
     current_round (state gd) \<le> 15 \<and>
     current_round (state gd) \<le> int (length ds) \<and>
     (game_over (state gd) \<or> current_round (state gd) = int (length ds)) \<and>
     game_over (state gd)
       = ((rounds (state gd) \<noteq> [] \<and> captured (last (rounds (state gd)))) \<or>
          current_round (state gd) = 15) \<and>
     list_all (\<lambda>r. \<not> captured r) (butlast (rounds (state gd))) \<and>
     map round_number (rounds (state gd)) = [1..current_round (state gd)] \<and>
     rounds_of ?h1 ds (rounds (state gd)) \<and>
     rook_position (state gd) =
       (if rounds (state gd) = [] then ?h1 else rook_position_after (last (rounds (state gd))))"
    by (intro conjI f ret a b c' d rec i len le k l m bl num tr' n)
  show ?thesis unfolding c by (rule exI [of _ gd]) (rule all)
qed

theorem created_game_ends_witness:
  "15 \<le> length (replicate 15 \<lparr>coin_result = ''heads'', roll1 = 4, roll2 = 4\<rparr>) \<and>
   (\<exists>gd. fst (play_rounds (fst (create_game Map.empty ''g'' 0)) ''g''
             (replicate 15 \<lparr>coin_result = ''heads'', roll1 = 4, roll2 = 4\<rparr>)) ''g'' = Some gd \<and>
      game_over (state gd) \<and> winner (state gd) = Some ''Rook (Black)'')"
proof -
  let ?ds = "replicate 15 \<lparr>coin_result = ''heads'', roll1 = 4, roll2 = 4\<rparr>"
  let ?f = "fst (play_rounds (fst (create_game Map.empty ''g'' 0)) ''g'' ?ds) ''g''"
  have h: "15 \<le> length ?ds" by simp
  have w: "winner (state (the ?f)) = Some ''Rook (Black)''"
    by code_simp
  obtain gd where f: "?f = Some gd" and a: "15 \<le> length ?ds \<longrightarrow> game_over (state gd)"
    using created_game_ends [of Map.empty "''g''" 0 ?ds] by blast
  have o: "game_over (state gd)" using a h by blast
  have w': "winner (state gd) = Some ''Rook (Black)''" using w unfolding f by simp
  show ?thesis by (intro conjI h exI [of _ gd] f o w')
qed

text \<open>
  C2. The bishop captures a target exactly when the two squares differ by the same
  nonzero amount in both coordinates; the rook captures exactly when one of the two
  coordinates agrees and the other does not; neither captures on its own square.
\<close>

theorem can_capture_rules:
  "Bishop_can_capture \<lparr>piece_type = t, color = c, piece_x = x, piece_y = y\<rparr> tx ty
     = (\<bar>tx - x\<bar> = \<bar>ty - y\<bar> \<and> \<bar>tx - x\<bar> \<noteq> 0)
   \<and> Rook_can_capture \<lparr>piece_type = t', color = c', piece_x = x, piece_y = y\<rparr> tx ty
     = ((x = tx) \<noteq> (y = ty))
   \<and> Bishop_can_capture \<lparr>piece_type = t, color = c, piece_x = x, piece_y = y\<rparr> x y = False
   \<and> Rook_can_capture \<lparr>piece_type = t', color = c', piece_x = x, piece_y = y\<rparr> x y = False"
  by (auto simp: Bishop_can_capture_def Rook_can_capture_def Let_def)

text \<open>
  C3. On a stored game that is over, \<open>play_round\<close> returns the stored state and the
  dictionary of games as it was: no round is appended, and the counter, the positions,
  the flag and the winner keep their values. The route returns the same state.
\<close>

theorem terminal_play_round_noop:
  assumes "games gid = Some gd" and "game_over (state gd)"
  shows "play_round games gid d = (games, Inr (Some (state gd))) \<and>
         api_play_round games gid d = (games, Inr (state gd)) \<and>
         fst (play_round games gid d) gid = Some gd"
  using assms by (simp add: play_round_def api_play_round_def)

theorem terminal_play_round_noop_witness:
  "fst (play_round (fst (create_game Map.empty ''g'' 0)) ''g''
          \<lparr>coin_result = ''heads'', roll1 = 3, roll2 = 4\<rparr>) ''g''
     = Some (the (fst (play_round (fst (create_game Map.empty ''g'' 0)) ''g''
          \<lparr>coin_result = ''heads'', roll1 = 3, roll2 = 4\<rparr>) ''g'')) \<and>
   game_over (state (the (fst (play_round (fst (create_game Map.empty ''g'' 0)) ''g''
          \<lparr>coin_result = ''heads'', roll1 = 3, roll2 = 4\<rparr>) ''g''))) \<and>
   play_round (fst (play_round (fst (create_game Map.empty ''g'' 0)) ''g''
          \<lparr>coin_result = ''heads'', roll1 = 3, roll2 = 4\<rparr>)) ''g''
          \<lparr>coin_result = ''tails'', roll1 = 1, roll2 = 1\<rparr>
     = (fst (play_round (fst (create_game Map.empty ''g'' 0)) ''g''
          \<lparr>coin_result = ''heads'', roll1 = 3, roll2 = 4\<rparr>),
        Inr (Some (state (the (fst (play_round (fst (create_game Map.empty ''g'' 0)) ''g''
          \<lparr>coin_result = ''heads'', roll1 = 3, roll2 = 4\<rparr>) ''g'')))))"
proof -
  let ?g = "fst (play_round (fst (create_game Map.empty ''g'' 0)) ''g''
          \<lparr>coin_result = ''heads'', roll1 = 3, roll2 = 4\<rparr>)"
  have a: "?g ''g'' = Some (the (?g ''g''))" by code_simp
  have b: "game_over (state (the (?g ''g'')))" by code_simp
  show ?thesis
    using a b terminal_play_round_noop [where games = ?g and gid = "''g''"
        and gd = "the (?g ''g'')" and d = "\<lparr>coin_result = ''tails'', roll1 = 1, roll2 = 1\<rparr>"]
    by blast
qed

text \<open>
  C4. When a game made by \<open>create_game\<close> was not over before any of k calls of
  \<open>play_round\<close>, it has k recorded rounds after them, its counter is k, and the
  rounds are numbered 1 to k in order.
\<close>

theorem live_rounds_counted:
  assumes "live_before (fst (create_game games new_id now)) new_id ds"
  shows "\<exists>gd. fst (play_rounds (fst (create_game games new_id now)) new_id ds) new_id = Some gd \<and>
     length (rounds (state gd)) = length ds \<and>
     current_round (state gd) = int (length ds) \<and>
     map round_number (rounds (state gd)) = [1..int (length ds)]"
proof -
  obtain gd0 where c: "fst (create_game games new_id now) = games(new_id \<mapsto> gd0)"
    and ok0: "entry_ok gd0" and cr0: "current_round (state gd0) = 0"
    using created_run by blast
  let ?g1 = "games(new_id \<mapsto> gd0)"
  have g1: "?g1 new_id = Some gd0" by simp
  obtain gd where f: "fst (play_rounds ?g1 new_id ds) new_id = Some gd"
    and ok: "entry_ok gd"
    and lv: "live_before ?g1 new_id ds
        \<longrightarrow> current_round (state gd) = current_round (state gd0) + int (length ds)"
    using run_inv [where games = ?g1 and gid = new_id and gd = gd0 and ds = ds] g1 ok0
    by blast
  have cr: "current_round (state gd) = int (length ds)"
    using lv assms cr0 unfolding c by simp
  have sok: "state_ok (state gd)" using ok by (simp add: entry_ok_def)
  have "current_round (state gd) = int (length (rounds (state gd)))"
    and "map round_number (rounds (state gd)) = [1..current_round (state gd)]"
    using sok by (auto simp: state_ok_def)
  then show ?thesis unfolding c using f cr by auto
qed

theorem live_rounds_counted_witness:
  "live_before (fst (create_game Map.empty ''g'' 0)) ''g''
     [\<lparr>coin_result = ''heads'', roll1 = 1, roll2 = 1\<rparr>,
      \<lparr>coin_result = ''tails'', roll1 = 6, roll2 = 2\<rparr>,
      \<lparr>coin_result = ''heads'', roll1 = 1, roll2 = 1\<rparr>] \<and>
   (\<exists>gd. fst (play_rounds (fst (create_game Map.empty ''g'' 0)) ''g''
     [\<lparr>coin_result = ''heads'', roll1 = 1, roll2 = 1\<rparr>,
      \<lparr>coin_result = ''tails'', roll1 = 6, roll2 = 2\<rparr>,
      \<lparr>coin_result = ''heads'', roll1 = 1, roll2 = 1\<rparr>]) ''g'' = Some gd \<and>
     length (rounds (state gd)) = 3 \<and> current_round (state gd) = 3 \<and>
     map round_number (rounds (state gd)) = [1, 2, 3])"
proof -
  let ?ds = "[\<lparr>coin_result = ''heads'', roll1 = 1, roll2 = 1\<rparr>,
      \<lparr>coin_result = ''tails'', roll1 = 6, roll2 = 2\<rparr>,
      \<lparr>coin_result = ''heads'', roll1 = 1, roll2 = 1\<rparr>]"
  have a: "live_before (fst (create_game Map.empty ''g'' 0)) ''g'' ?ds" by code_simp
  obtain gd where f: "fst (play_rounds (fst (create_game Map.empty ''g'' 0)) ''g'' ?ds) ''g'' = Some gd"
    and l: "length (rounds (state gd)) = length ?ds"
    and c: "current_round (state gd) = int (length ?ds)"
    and m: "map round_number (rounds (state gd)) = [1..int (length ?ds)]"
    using live_rounds_counted [OF a] by blast
  have l3: "length (rounds (state gd)) = 3" using l by simp
  have c3: "current_round (state gd) = 3" using c by simp
  have u: "[1..3] = [1, 2, 3::int]" by code_simp
  have m3: "map round_number (rounds (state gd)) = [1, 2, 3]" using m u by simp
  show ?thesis by (intro exI [of _ gd] conjI a f l3 c3 m3)
qed

text \<open>
  C5. On a board of size 8, for coordinates x and y from 0 to 7 and a distance m that
  is not negative, wrapping (x + m, y) gives ((x + m) mod 8, y) and wrapping (x, y + m)
  gives (x, (y + m) mod 8), both on the board. Moving a rook that stands on (x, y) up
  by m puts it on (x, (y + m) mod 8), moving it right by m puts it on
  ((x + m) mod 8, y); the new square is stored in the rook of the board and returned.
\<close>

theorem wrap_and_move_rook:
  assumes "board_size b = 8" and "0 \<le> x" and "x < 8" and "0 \<le> y" and "y < 8" and "0 \<le> m"
  shows "wrap_coordinates b (x + m) y = Inr ((x + m) mod 8, y) \<and>
         wrap_coordinates b x (y + m) = Inr (x, (y + m) mod 8) \<and>
         0 \<le> (x + m) mod 8 \<and> (x + m) mod 8 < 8 \<and>
         0 \<le> (y + m) mod 8 \<and> (y + m) mod 8 < 8 \<and>
         move_rook (b\<lparr>rook := set_position (rook b) x y\<rparr>) ''up'' m
           = Inr (b\<lparr>rook := set_position (rook b) x ((y + m) mod 8)\<rparr>, (x, (y + m) mod 8)) \<and>
         move_rook (b\<lparr>rook := set_position (rook b) x y\<rparr>) ''right'' m
           = Inr (b\<lparr>rook := set_position (rook b) ((x + m) mod 8) y\<rparr>, ((x + m) mod 8, y))"
proof -
  have w: "wrap_coordinates b' u v = Inr (u mod 8, v mod 8)" if "board_size b' = 8" for b' u v
    using that by (rule wrap_coordinates_8)
  have xx: "x mod 8 = x" and yy: "y mod 8 = y" using assms by simp_all
  have a: "wrap_coordinates b (x + m) y = Inr ((x + m) mod 8, y)"
    and b: "wrap_coordinates b x (y + m) = Inr (x, (y + m) mod 8)"
    using assms(1) by (simp_all add: w xx yy)
  have c: "0 \<le> (x + m) mod 8 \<and> (x + m) mod 8 < 8 \<and> 0 \<le> (y + m) mod 8 \<and> (y + m) mod 8 < 8"
    by simp
  have d: "move_rook (b\<lparr>rook := set_position (rook b) x y\<rparr>) ''up'' m
           = Inr (b\<lparr>rook := set_position (rook b) x ((y + m) mod 8)\<rparr>, (x, (y + m) mod 8))"
    using assms(1) by (simp add: move_rook_def w set_position_def xx)
  have e: "move_rook (b\<lparr>rook := set_position (rook b) x y\<rparr>) ''right'' m
           = Inr (b\<lparr>rook := set_position (rook b) ((x + m) mod 8) y\<rparr>, ((x + m) mod 8, y))"
    using assms(1) by (simp add: move_rook_def w set_position_def yy)
  show ?thesis using a b c d e by simp
qed

theorem wrap_and_move_rook_witness:
  "board_size Board_init = 8 \<and> (0::int) \<le> 7 \<and> (7::int) < 8 \<and> (0::int) \<le> 0 \<and> (0::int) < 8 \<and>
   (0::int) \<le> 12 \<and>
   wrap_coordinates Board_init (7 + 12) 0 = Inr (3, 0) \<and>
   wrap_coordinates Board_init 7 (0 + 12) = Inr (7, 4) \<and>
   move_rook (Board_init\<lparr>rook := set_position (rook Board_init) 7 0\<rparr>) ''up'' 12
     = Inr (Board_init\<lparr>rook := set_position (rook Board_init) 7 4\<rparr>, (7, 4)) \<and>
   move_rook (Board_init\<lparr>rook := set_position (rook Board_init) 7 0\<rparr>) ''right'' 12
     = Inr (Board_init\<lparr>rook := set_position (rook Board_init) 3 0\<rparr>, (3, 0))"
proof -
  have s: "board_size Board_init = 8" by (simp add: Board_init_def)
  show ?thesis
    using s wrap_and_move_rook [of Board_init 7 0 12] by simp
qed

text \<open>
  C6. \<open>create_game\<close> returns a state with the bishop on c3, that is (2, 2), the rook
  on h1, that is (7, 0), no rounds, counter 0, not over, no winner, and stores it, with
  a board holding the two pieces on these squares, under the new identifier.
\<close>

theorem create_game_initial:
  "create_game games new_id now =
     (games(new_id \<mapsto>
        \<lparr>state =
           \<lparr>game_id = new_id, rounds = [], current_round = 0, game_over = False,
            winner = None,
            bishop_position = \<lparr>pos_file = ''c'', pos_rank = 3, pos_x = 2, pos_y = 2\<rparr>,
            rook_position = \<lparr>pos_file = ''h'', pos_rank = 1, pos_x = 7, pos_y = 0\<rparr>,
            created_at = now\<rparr>,
         board =
           \<lparr>board_size = 8,
            bishop = \<lparr>piece_type = BISHOP, color = WHITE, piece_x = 2, piece_y = 2\<rparr>,
            rook = \<lparr>piece_type = ROOK, color = BLACK, piece_x = 7, piece_y = 0\<rparr>\<rparr>\<rparr>),
      Inr \<lparr>game_id = new_id, rounds = [], current_round = 0, game_over = False,
           winner = None,
           bishop_position = \<lparr>pos_file = ''c'', pos_rank = 3, pos_x = 2, pos_y = 2\<rparr>,
           rook_position = \<lparr>pos_file = ''h'', pos_rank = 1, pos_x = 7, pos_y = 0\<rparr>,
           created_at = now\<rparr>) \<and>
   api_create_game games new_id now = create_game games new_id now"
  by (simp add: create_game_eq api_create_game_def GameState_init_def Board_init_def
      Bishop_def Rook_def)

text \<open>
  C7. \<open>reset_game\<close> on a stored game, whatever its state, returns a state with the
  identifier of the call, no rounds, counter 0, not over, no winner, the bishop on
  (2, 2) and the rook on (7, 0), and puts this state and a new board with the pieces on
  these squares in the place of the stored entry. The identifier is the one the game
  had where the game was stored under its own identifier, as \<open>create_game\<close> stores it.
\<close>

theorem reset_game_initial:
  assumes "games gid = Some gd"
  shows "\<exists>st. reset_game games gid now =
       (games(gid \<mapsto>
          \<lparr>state = st,
           board =
             \<lparr>board_size = 8,
              bishop = \<lparr>piece_type = BISHOP, color = WHITE, piece_x = 2, piece_y = 2\<rparr>,
              rook = \<lparr>piece_type = ROOK, color = BLACK, piece_x = 7, piece_y = 0\<rparr>\<rparr>\<rparr>),
        Inr st) \<and>
     st = \<lparr>game_id = gid, rounds = [], current_round = 0, game_over = False,
           winner = None,
           bishop_position = \<lparr>pos_file = ''c'', pos_rank = 3, pos_x = 2, pos_y = 2\<rparr>,
           rook_position = \<lparr>pos_file = ''h'', pos_rank = 1, pos_x = 7, pos_y = 0\<rparr>,
           created_at = now\<rparr> \<and>
     (game_id (state gd) = gid \<longrightarrow> game_id st = game_id (state gd))"
  using reset_game_stored [where games = games and gid = gid and gd = gd and now = now] assms
  by (simp add: GameState_init_def Board_init_def Bishop_def Rook_def)

theorem reset_game_initial_witness:
  "fst (play_round (fst (create_game Map.empty ''g'' 0)) ''g''
          \<lparr>coin_result = ''tails'', roll1 = 2, roll2 = 3\<rparr>) ''g''
     = Some (the (fst (play_round (fst (create_game Map.empty ''g'' 0)) ''g''
          \<lparr>coin_result = ''tails'', roll1 = 2, roll2 = 3\<rparr>) ''g'')) \<and>
   game_id (state (the (fst (play_round (fst (create_game Map.empty ''g'' 0)) ''g''
          \<lparr>coin_result = ''tails'', roll1 = 2, roll2 = 3\<rparr>) ''g''))) = ''g'' \<and>
   length (rounds (state (the (fst (play_round (fst (create_game Map.empty ''g'' 0)) ''g''
          \<lparr>coin_result = ''tails'', roll1 = 2, roll2 = 3\<rparr>) ''g'')))) = 1 \<and>
   (\<exists>st. snd (reset_game (fst (play_round (fst (create_game Map.empty ''g'' 0)) ''g''
          \<lparr>coin_result = ''tails'', roll1 = 2, roll2 = 3\<rparr>)) ''g'' 9) = Inr st \<and>
      game_id st = ''g'' \<and> rounds st = [] \<and> current_round st = 0 \<and>
      \<not> game_over st \<and> winner st = None \<and>
      rook_position st = \<lparr>pos_file = ''h'', pos_rank = 1, pos_x = 7, pos_y = 0\<rparr>)"
proof -
  let ?g = "fst (play_round (fst (create_game Map.empty ''g'' 0)) ''g''
          \<lparr>coin_result = ''tails'', roll1 = 2, roll2 = 3\<rparr>)"
  have a: "?g ''g'' = Some (the (?g ''g''))" by code_simp
  have b: "game_id (state (the (?g ''g''))) = ''g''" by code_simp
  have c: "length (rounds (state (the (?g ''g'')))) = 1" by code_simp
  obtain st where r: "reset_game ?g ''g'' 9 =
       (?g(''g'' \<mapsto>
          \<lparr>state = st,
           board =
             \<lparr>board_size = 8,
              bishop = \<lparr>piece_type = BISHOP, color = WHITE, piece_x = 2, piece_y = 2\<rparr>,
              rook = \<lparr>piece_type = ROOK, color = BLACK, piece_x = 7, piece_y = 0\<rparr>\<rparr>\<rparr>),
        Inr st)"
    and s: "st = \<lparr>game_id = ''g'', rounds = [], current_round = 0, game_over = False,
           winner = None,
           bishop_position = \<lparr>pos_file = ''c'', pos_rank = 3, pos_x = 2, pos_y = 2\<rparr>,
           rook_position = \<lparr>pos_file = ''h'', pos_rank = 1, pos_x = 7, pos_y = 0\<rparr>,
           created_at = 9\<rparr>"
    using a reset_game_initial [where games = ?g and gid = "''g''"
        and gd = "the (?g ''g'')" and now = 9]
    by blast
  have d: "snd (reset_game ?g ''g'' 9) = Inr st" by (simp only: r snd_conv)
  have e: "game_id st = ''g'' \<and> rounds st = [] \<and> current_round st = 0 \<and>
      \<not> game_over st \<and> winner st = None \<and>
      rook_position st = \<lparr>pos_file = ''h'', pos_rank = 1, pos_x = 7, pos_y = 0\<rparr>"
    by (simp add: s)
  show ?thesis by (intro conjI a b c exI [of _ st] d) (simp_all add: s)
qed

text \<open>
  C8. For an identifier that is not stored, \<open>get_game\<close> and \<open>play_round\<close> return
  \<open>None\<close>, the three routes raise the 404 exception, and the dictionary of games
  comes back as it was. For a stored identifier the route of \<open>get_game\<close> returns the
  stored state, \<open>reset_game\<close> returns a state, the route of \<open>play_round\<close> does not
  raise the 404 exception, and on a board as the service builds it raises nothing.
\<close>

theorem unknown_game_not_found:
  "(games gid = None \<longrightarrow>
      get_game games gid = (games, None) \<and>
      play_round games gid d = (games, Inr None) \<and>
      api_get_game games gid = (games, Inl not_found) \<and>
      api_play_round games gid d = (games, Inl not_found) \<and>
      reset_game games gid now = (games, Inl not_found)) \<and>
   (games gid = Some gd \<longrightarrow>
      snd (api_get_game games gid) = Inr (state gd) \<and>
      \<not> isl (snd (reset_game games gid now)) \<and>
      snd (api_play_round games gid d) \<noteq> Inl not_found \<and>
      (board_ok (board gd) \<longrightarrow> \<not> isl (snd (api_play_round games gid d))))"
proof -
  have a: "get_game games gid = (games, None) \<and>
      play_round games gid d = (games, Inr None) \<and>
      api_get_game games gid = (games, Inl not_found) \<and>
      api_play_round games gid d = (games, Inl not_found) \<and>
      reset_game games gid now = (games, Inl not_found)" if "games gid = None"
    using that
    by (simp add: get_game_def play_round_def api_get_game_def api_play_round_def
        reset_game_def)
  have b1: "snd (api_get_game games gid) = Inr (state gd)" if "games gid = Some gd"
    using that by (simp add: api_get_game_def get_game_def)
  have b2: "\<not> isl (snd (reset_game games gid now))" if "games gid = Some gd"
    using that reset_game_stored [where games = games and gid = gid and gd = gd and now = now]
    by simp
  have b3: "snd (api_play_round games gid d) \<noteq> Inl not_found" if g: "games gid = Some gd"
  proof -
    have "snd (play_round games gid d) \<noteq> Inr None"
      using g by (simp add: play_round_def Let_def split: sum.splits prod.splits)
    moreover have "snd (play_round games gid d) \<noteq> Inl not_found"
      using g
      by (auto simp: play_round_def Let_def not_found_def get_position_def py_chr_def
          move_rook_def wrap_coordinates_def py_mod_def split: sum.splits prod.splits if_splits)
    ultimately show ?thesis
      by (auto simp: api_play_round_def split: prod.splits sum.splits option.splits)
  qed
  have b4: "\<not> isl (snd (api_play_round games gid d))"
    if "games gid = Some gd" and "board_ok (board gd)"
    using that play_round_returns [where games = games and gid = gid and gd = gd and d = d]
    by (auto simp: api_play_round_def)
  show ?thesis using a b1 b2 b3 b4 by blast
qed

theorem unknown_game_not_found_witness:
  "(Map.empty :: games) ''x'' = None \<and>
   api_get_game Map.empty ''x'' = (Map.empty, Inl not_found) \<and>
   api_play_round Map.empty ''x'' \<lparr>coin_result = ''heads'', roll1 = 1, roll2 = 1\<rparr>
     = (Map.empty, Inl not_found) \<and>
   reset_game Map.empty ''x'' 0 = (Map.empty, Inl not_found) \<and>
   fst (create_game Map.empty ''g'' 0) ''g''
     = Some (the (fst (create_game Map.empty ''g'' 0) ''g'')) \<and>
   board_ok (board (the (fst (create_game Map.empty ''g'' 0) ''g''))) \<and>
   \<not> isl (snd (reset_game (fst (create_game Map.empty ''g'' 0)) ''g'' 0)) \<and>
   \<not> isl (snd (api_play_round (fst (create_game Map.empty ''g'' 0)) ''g''
              \<lparr>coin_result = ''heads'', roll1 = 1, roll2 = 1\<rparr>))"
proof -
  let ?g = "fst (create_game Map.empty ''g'' 0)"
  let ?d = "\<lparr>coin_result = ''heads'', roll1 = 1, roll2 = 1\<rparr>"
  have n: "(Map.empty :: games) ''x'' = None" by simp
  have a: "?g ''g'' = Some (the (?g ''g''))" by code_simp
  have b: "board_ok (board (the (?g ''g'')))" by code_simp
  have u: "api_get_game Map.empty ''x'' = (Map.empty, Inl not_found) \<and>
      api_play_round Map.empty ''x'' ?d = (Map.empty, Inl not_found) \<and>
      reset_game Map.empty ''x'' 0 = (Map.empty, Inl not_found)"
    using n unknown_game_not_found [where games = Map.empty and gid = "''x''" and d = ?d
        and now = 0]
    by blast
  have p: "\<not> isl (snd (reset_game ?g ''g'' 0)) \<and> \<not> isl (snd (api_play_round ?g ''g'' ?d))"
    using a b unknown_game_not_found [where games = ?g and gid = "''g''" and d = ?d
        and now = 0 and gd = "the (?g ''g'')"]
    by blast
  show ?thesis using n a b u p by blast
qed

text \<open>
  C9. Under draws as \<open>random\<close> makes them, every round recorded in a game made by
  \<open>create_game\<close> and played any number of times has both dice from 1 to 6 and their
  sum as total; 8 is the only such total that the board size divides, and the rook's
  position after the round is its position before exactly when the total is 8.
\<close>

theorem rounds_record_dice:
  assumes "list_all valid_draw ds"
  shows "\<exists>gd. fst (play_rounds (fst (create_game games new_id now)) new_id ds) new_id = Some gd \<and>
     list_all round_ok (rounds (state gd))"
proof -
  obtain gd0 where c: "fst (create_game games new_id now) = games(new_id \<mapsto> gd0)"
    and ok0: "entry_ok gd0" and r0: "rounds (state gd0) = []"
    using created_run by blast
  let ?g1 = "games(new_id \<mapsto> gd0)"
  have g1: "?g1 new_id = Some gd0" by simp
  obtain gd where f: "fst (play_rounds ?g1 new_id ds) new_id = Some gd"
    and v: "list_all valid_draw ds \<and> list_all round_ok (rounds (state gd0))
        \<longrightarrow> list_all round_ok (rounds (state gd))"
    using run_inv [where games = ?g1 and gid = new_id and gd = gd0 and ds = ds] g1 ok0
    by blast
  have "list_all round_ok (rounds (state gd))" using v assms r0 by simp
  then show ?thesis unfolding c using f by blast
qed

theorem rounds_record_dice_witness:
  "list_all valid_draw
     [\<lparr>coin_result = ''tails'', roll1 = 6, roll2 = 2\<rparr>,
      \<lparr>coin_result = ''heads'', roll1 = 1, roll2 = 1\<rparr>] \<and>
   (\<exists>gd. fst (play_rounds (fst (create_game Map.empty ''g'' 0)) ''g''
     [\<lparr>coin_result = ''tails'', roll1 = 6, roll2 = 2\<rparr>,
      \<lparr>coin_result = ''heads'', roll1 = 1, roll2 = 1\<rparr>]) ''g'' = Some gd \<and>
     list_all round_ok (rounds (state gd)) \<and> length (rounds (state gd)) = 2)"
proof -
  let ?ds = "[\<lparr>coin_result = ''tails'', roll1 = 6, roll2 = 2\<rparr>,
      \<lparr>coin_result = ''heads'', roll1 = 1, roll2 = 1\<rparr>]"
  let ?f = "fst (play_rounds (fst (create_game Map.empty ''g'' 0)) ''g'' ?ds) ''g''"
  have a: "list_all valid_draw ?ds" by (simp add: valid_draw_def)
  obtain gd where f: "?f = Some gd" and r: "list_all round_ok (rounds (state gd))"
    using rounds_record_dice [OF a] by blast
  have l: "length (rounds (state (the ?f))) = 2" by code_simp
  have l2: "length (rounds (state gd)) = 2" using l unfolding f by simp
  show ?thesis by (intro conjI a exI [of _ gd] f r l2)
qed

text \<open>
  C10. \<open>get_game\<close> returns the dictionary of games as it was, for every identifier,
  with the stored state when there is one and \<open>None\<close> otherwise; so does its route,
  with the 404 exception in the place of \<open>None\<close>.
\<close>

theorem get_game_read_only:
  "get_game games gid = (games, map_option state (games gid)) \<and>
   api_get_game games gid =
     (games, case games gid of None \<Rightarrow> Inl not_found | Some gd \<Rightarrow> Inr (state gd))"
  by (simp add: get_game_def api_get_game_def split: option.splits)

end
